theory Spec2Isabelle
  imports Main "HOL-Library.Finite_Map"
begin

section \<open>The mock transport of \<^verbatim>\<open>transport.go\<close>\<close>

subsection \<open>Requests, responses, responders\<close>

text \<open>
  \<^verbatim>\<open>RoundTrip\<close> reads two things of an \<^verbatim>\<open>*http.Request\<close>: the field \<^verbatim>\<open>Method\<close> and the
  string \<^verbatim>\<open>req.URL.String()\<close>. The record keeps them (the field \<open>URL\<close> is that string; Go
  strings are byte sequences, as \<open>string\<close> is). A \<^verbatim>\<open>*http.Response\<close> is a pointer that may be
  nil, an \<^verbatim>\<open>error\<close> is an interface value that may be nil: both are options.
\<close>

record Request =
  Method :: string
  URL :: string

record Response =
  StatusCode :: int
  Body :: string

datatype error = NoResponderFound | OtherError string

type_synonym Result = "Response option \<times> error option"

text \<open>
  \<^verbatim>\<open>type Responder func(*http.Request) (*http.Response, error)\<close>. A value of a Go function
  type is nil or a function: \<open>None\<close> is nil. The functions are pure here; whatever else a
  Go closure does when it is called is its own business, the transport calls it once and
  hands its two results on.
\<close>

type_synonym Responder = "(Request \<Rightarrow> Result) option"

definition ConnectionFailure :: "Request \<Rightarrow> Result" where
  "ConnectionFailure req = (None, Some NoResponderFound)"

subsection \<open>The transport\<close>

text \<open>
  \<^verbatim>\<open>responders map[string]Responder\<close> is a finite map whose values may be nil. A Go map
  value may itself be nil (the zero value of \<^verbatim>\<open>MockTransport\<close>): reading a nil map behaves
  as reading an empty one, assigning to an entry of it panics. \<open>responders = None\<close> is the
  nil map. The mutex \<^verbatim>\<open>mu\<close> is not a field of the record: every method is modelled as one
  atomic step on the transport, and the places where \<^verbatim>\<open>RoundTrip\<close> takes and releases the
  mutex are recorded as events (below).
\<close>

record MockTransport =
  responders :: "(string, Responder) fmap option"
  noResponder :: Responder

datatype panic = AssignmentToEntryInNilMap

definition NewMockTransport :: MockTransport where
  "NewMockTransport = \<lparr>responders = Some fmempty, noResponder = None\<rparr>"

definition registry :: "MockTransport \<Rightarrow> (string, Responder) fmap" where
  "registry m = (case responders m of None \<Rightarrow> fmempty | Some mp \<Rightarrow> mp)"

text \<open>
  \<^verbatim>\<open>responderForKey\<close> ranges over the map and returns the value stored under the first key
  equal to \<open>key\<close>, nil when there is none. \<open>range_responders\<close> is that loop over the
  entries in the order the runtime happens to enumerate them; keys of a map are unique, so
  the result is the stored value whatever the order (lemma \<open>range_responders_lookup\<close>),
  and \<open>responderForKey\<close> is written with the lookup.
\<close>

fun range_responders :: "(string \<times> Responder) list \<Rightarrow> string \<Rightarrow> Responder" where
  "range_responders [] key = None"
| "range_responders ((k, r) # es) key = (if k \<noteq> key then range_responders es key else r)"

definition responderForKey :: "MockTransport \<Rightarrow> string \<Rightarrow> Responder" where
  "responderForKey m key = (case fmlookup (registry m) key of None \<Rightarrow> None | Some r \<Rightarrow> r)"

definition RegisterResponder ::
  "MockTransport \<Rightarrow> string \<Rightarrow> string \<Rightarrow> Responder \<Rightarrow> panic + MockTransport" where
  "RegisterResponder m method url responder =
     (case responders m of
        None \<Rightarrow> Inl AssignmentToEntryInNilMap
      | Some mp \<Rightarrow> Inr (m\<lparr>responders := Some (fmupd (method @ '' '' @ url) responder mp)\<rparr>))"

definition RegisterNoResponder :: "MockTransport \<Rightarrow> Responder \<Rightarrow> MockTransport" where
  "RegisterNoResponder m responder = m\<lparr>noResponder := responder\<rparr>"

definition Reset :: "MockTransport \<Rightarrow> MockTransport" where
  "Reset m = m\<lparr>responders := Some fmempty, noResponder := None\<rparr>"

definition Len :: "MockTransport \<Rightarrow> nat" where
  "Len m = fcard (fmdom (registry m))"

definition HasNoResponder :: "MockTransport \<Rightarrow> bool" where
  "HasNoResponder m = (noResponder m \<noteq> None)"

subsection \<open>Strings\<close>

text \<open>
  \<^verbatim>\<open>strings.Contains(url, "?")\<close> and \<^verbatim>\<open>strings.Split(url, "?")[0]\<close>, for a separator of one
  byte. \<open>Split\<close> never returns the empty list (lemma \<open>Split_not_Nil\<close>), so the index 0 is
  in range and \<open>hd\<close> reads it.
\<close>

definition Contains :: "string \<Rightarrow> char \<Rightarrow> bool" where
  "Contains s sep = (sep \<in> set s)"

fun Split :: "string \<Rightarrow> char \<Rightarrow> string list" where
  "Split [] sep = [[]]"
| "Split (c # cs) sep =
     (if c = sep then [] # Split cs sep
      else (case Split cs sep of [] \<Rightarrow> [[c]] | p # ps \<Rightarrow> (c # p) # ps))"

subsection \<open>Dispatch\<close>

text \<open>
  What \<^verbatim>\<open>RoundTrip\<close> does with the mutex and with the responders, in program order.
  \<^verbatim>\<open>defer m.mu.Unlock()\<close> runs when the function returns, that is after the operand of its
  \<^verbatim>\<open>return\<close> has been evaluated.
\<close>

datatype event =
    Lock
  | Unlock
  | Lookup string
  | ReadNoResponder
  | Invoke
  | InvokeConnectionFailure

definition responderForKey_events :: "string \<Rightarrow> event list" where
  "responderForKey_events key = [Lock, Lookup key, Unlock]"

definition RoundTrip_run :: "MockTransport \<Rightarrow> Request \<Rightarrow> event list \<times> Result" where
  "RoundTrip_run m req =
     (let url = URL req;
          key = Method req @ '' '' @ url;
          responder = responderForKey m key;
          retry = (responder = None \<and> Contains url (CHR ''?''));
          key' = Method req @ '' '' @ hd (Split url (CHR ''?''));
          responder' = (if retry then responderForKey m key' else responder);
          evs = responderForKey_events key @ (if retry then responderForKey_events key' else [])
      in case responder' of
           Some r \<Rightarrow> (evs @ [Invoke], r req)
         | None \<Rightarrow>
             (case noResponder m of
                None \<Rightarrow> (evs @ [Lock, ReadNoResponder, InvokeConnectionFailure, Unlock],
                           ConnectionFailure req)
              | Some r \<Rightarrow> (evs @ [Lock, ReadNoResponder, Invoke, Unlock], r req)))"

definition RoundTrip :: "MockTransport \<Rightarrow> Request \<Rightarrow> Result" where
  "RoundTrip m req = snd (RoundTrip_run m req)"

definition RoundTrip_events :: "MockTransport \<Rightarrow> Request \<Rightarrow> event list" where
  "RoundTrip_events m req = fst (RoundTrip_run m req)"

text \<open>
  The lock discipline of the specification, as a check of an event list: the mutex is
  taken only when free and released only when held, the registry and the catch-all field
  are read only while it is held, a user's generator is called only while it is free, and
  the mutex is free at the end. \<open>held\<close> says whether the mutex is held before the first
  event.
\<close>

fun lock_discipline :: "bool \<Rightarrow> event list \<Rightarrow> bool" where
  "lock_discipline held [] = (\<not> held)"
| "lock_discipline held (Lock # es) = (\<not> held \<and> lock_discipline True es)"
| "lock_discipline held (Unlock # es) = (held \<and> lock_discipline False es)"
| "lock_discipline held (Lookup k # es) = (held \<and> lock_discipline held es)"
| "lock_discipline held (ReadNoResponder # es) = (held \<and> lock_discipline held es)"
| "lock_discipline held (Invoke # es) = (\<not> held \<and> lock_discipline held es)"
| "lock_discipline held (InvokeConnectionFailure # es) = lock_discipline held es"

text \<open>The same check without the condition on calls of generators.\<close>

fun reads_under_lock :: "bool \<Rightarrow> event list \<Rightarrow> bool" where
  "reads_under_lock held [] = (\<not> held)"
| "reads_under_lock held (Lock # es) = (\<not> held \<and> reads_under_lock True es)"
| "reads_under_lock held (Unlock # es) = (held \<and> reads_under_lock False es)"
| "reads_under_lock held (Lookup k # es) = (held \<and> reads_under_lock held es)"
| "reads_under_lock held (ReadNoResponder # es) = (held \<and> reads_under_lock held es)"
| "reads_under_lock held (Invoke # es) = reads_under_lock held es"
| "reads_under_lock held (InvokeConnectionFailure # es) = reads_under_lock held es"

subsection \<open>Example values\<close>

definition hello :: "Request \<Rightarrow> Result" where
  "hello req = (Some \<lparr>StatusCode = 200, Body = ''hello world''\<rparr>, None)"

definition teapot :: "Request \<Rightarrow> Result" where
  "teapot req = (None, Some (OtherError (Method req)))"

definition get_a :: Request where
  "get_a = \<lparr>Method = ''GET'', URL = ''http://x/a''\<rparr>"

definition get_a_q :: Request where
  "get_a_q = \<lparr>Method = ''GET'', URL = ''http://x/a?q=1''\<rparr>"

definition post_a_q :: Request where
  "post_a_q = \<lparr>Method = ''POST'', URL = ''http://x/a?q=1''\<rparr>"

definition get_a_b :: Request where
  "get_a_b = \<lparr>Method = ''GET a'', URL = ''b''\<rparr>"

definition transport_get_a :: "Responder \<Rightarrow> MockTransport" where
  "transport_get_a G =
     \<lparr>responders = Some (fmupd ''GET http://x/a'' G fmempty), noResponder = None\<rparr>"

section \<open>The activation controller of \<^verbatim>\<open>transport.go\<close>\<close>

subsection \<open>Package-level state\<close>

text \<open>
  A value of the interface \<^verbatim>\<open>http.RoundTripper\<close> is nil, a \<^verbatim>\<open>*MockTransport\<close> (known by
  its address) or some other implementation (known by a number). Go compares two such
  values by dynamic type and pointer, which is equality of this datatype.
\<close>

datatype RoundTripper = NilRoundTripper | MockTransportAt nat | OtherRoundTripper nat

text \<open>
  The package-level variables the three functions read and write: \<^verbatim>\<open>http.DefaultTransport\<close>;
  \<^verbatim>\<open>Transports.Default\<close> (the address of the mock transport) and \<^verbatim>\<open>Transports.Initial\<close>;
  \<^verbatim>\<open>oldHTTPGlobals.transport\<close> and \<^verbatim>\<open>oldHTTPGlobals.client\<close> (a \<^verbatim>\<open>*http.Client\<close>, \<open>None\<close>
  when nil); \<^verbatim>\<open>*queue.isLocked\<close> (an int32 that only ever receives 0, 1 and 2, so no
  arithmetic can overflow); the number of goroutines parked in the receive
  \<^verbatim>\<open><-queue.wait\<close>; and the field \<^verbatim>\<open>Transport\<close> of the \<^verbatim>\<open>http.Client\<close> at each address.
  The mutexes of \<^verbatim>\<open>Transports\<close> and \<^verbatim>\<open>oldHTTPGlobals\<close> are held during the sections below,
  which are therefore single steps.
\<close>

record globals =
  DefaultTransport :: RoundTripper
  Transports_Default :: nat
  Transports_Initial :: RoundTripper
  oldHTTPGlobals_transport :: RoundTripper
  oldHTTPGlobals_client :: "nat option"
  queue_isLocked :: int
  queue_wait :: nat
  client_Transport :: "nat \<Rightarrow> RoundTripper"

text \<open>
  A call returns, or parks its goroutine on the channel \<^verbatim>\<open>queue.wait\<close> (until another
  goroutine completes the communication, if one ever does), or panics. Each outcome carries
  the package-level state at that point.
\<close>

datatype 'a outcome = Returns 'a | Blocks 'a | Panics 'a

fun after :: "'a outcome \<Rightarrow> 'a" where
  "after (Returns s) = s"
| "after (Blocks s) = s"
| "after (Panics s) = s"

subsection \<open>The gate\<close>

text \<open>
  Lines 181 to 189 of \<^verbatim>\<open>Activate\<close> (and 215 to 222 of \<^verbatim>\<open>ActivateNonDefault\<close>): when
  \<^verbatim>\<open>isLocked\<close> is at least 1 it becomes 2 and the goroutine receives from the unbuffered
  channel, where it parks; otherwise \<^verbatim>\<open>isLocked\<close> becomes 1.
\<close>

definition queue_acquire :: "globals \<Rightarrow> globals outcome" where
  "queue_acquire s =
     (if queue_isLocked s \<ge> 1
      then Blocks (s\<lparr>queue_isLocked := 2, queue_wait := Suc (queue_wait s)\<rparr>)
      else Returns (s\<lparr>queue_isLocked := 1\<rparr>))"

text \<open>
  Lines 249 to 254 of \<^verbatim>\<open>Deactivate\<close>: when \<^verbatim>\<open>isLocked\<close> is at least 1 it becomes 0, and
  when it was 2 the goroutine sends on the unbuffered channel: a parked receiver takes the
  value and both go on, and with no receiver the sender parks.
\<close>

definition queue_release :: "globals \<Rightarrow> globals outcome" where
  "queue_release s =
     (let isL = queue_isLocked s
      in if isL \<ge> 1
         then (let s1 = s\<lparr>queue_isLocked := 0\<rparr>
               in if isL = 2
                  then (if queue_wait s1 = 0 then Blocks s1
                        else Returns (s1\<lparr>queue_wait := queue_wait s1 - 1\<rparr>))
                  else Returns s1)
         else Returns s)"

subsection \<open>Activate, ActivateNonDefault, Deactivate\<close>

text \<open>
  \<^verbatim>\<open>Disabled()\<close> is defined in another file of the package; its result is the parameter
  \<open>disabled\<close>. Lines 193 to 200 are \<open>Activate_section\<close>; a goroutine that was parked in
  \<^verbatim>\<open>Activate\<close> and is released goes on with this section, on the state of that moment.
\<close>

definition Activate_section :: "globals \<Rightarrow> globals" where
  "Activate_section s =
     (let s1 = (if DefaultTransport s \<noteq> MockTransportAt (Transports_Default s)
                then s\<lparr>Transports_Initial := DefaultTransport s\<rparr> else s)
      in s1\<lparr>DefaultTransport := MockTransportAt (Transports_Default s1)\<rparr>)"

definition Activate :: "bool \<Rightarrow> globals \<Rightarrow> globals outcome" where
  "Activate disabled s =
     (if disabled then Returns s
      else (case queue_acquire s of
              Returns s1 \<Rightarrow> Returns (Activate_section s1)
            | Blocks s1 \<Rightarrow> Blocks s1
            | Panics s1 \<Rightarrow> Panics s1))"

text \<open>
  Lines 224 to 232. \<^verbatim>\<open>client.Transport\<close> on a nil \<^verbatim>\<open>client\<close> is a nil pointer dereference,
  before any of the three assignments.
\<close>

definition ActivateNonDefault_section :: "nat option \<Rightarrow> globals \<Rightarrow> globals outcome" where
  "ActivateNonDefault_section client s =
     (case client of
        None \<Rightarrow> Panics s
      | Some c \<Rightarrow>
          Returns (s\<lparr>oldHTTPGlobals_transport := client_Transport s c,
                     oldHTTPGlobals_client := Some c,
                     client_Transport :=
                       (client_Transport s)(c := MockTransportAt (Transports_Default s))\<rparr>))"

definition ActivateNonDefault :: "bool \<Rightarrow> nat option \<Rightarrow> globals \<Rightarrow> globals outcome" where
  "ActivateNonDefault disabled client s =
     (if disabled then Returns s
      else (case queue_acquire s of
              Returns s1 \<Rightarrow> ActivateNonDefault_section client s1
            | Blocks s1 \<Rightarrow> Blocks s1
            | Panics s1 \<Rightarrow> Panics s1))"

text \<open>Lines 256 to 265.\<close>

definition Deactivate_section :: "globals \<Rightarrow> globals" where
  "Deactivate_section s =
     (let s1 = s\<lparr>DefaultTransport := Transports_Initial s\<rparr>
      in case oldHTTPGlobals_client s1 of
           None \<Rightarrow> s1
         | Some c \<Rightarrow>
             s1\<lparr>client_Transport := (client_Transport s1)(c := oldHTTPGlobals_transport s1)\<rparr>)"

definition Deactivate :: "bool \<Rightarrow> globals \<Rightarrow> globals outcome" where
  "Deactivate disabled s =
     (if disabled then Returns s
      else (case queue_release s of
              Returns s1 \<Rightarrow> Returns (Deactivate_section s1)
            | Blocks s1 \<Rightarrow> Blocks s1
            | Panics s1 \<Rightarrow> Panics s1))"

text \<open>
  The state after \<open>n\<close> further calls of \<^verbatim>\<open>Activate\<close> (each one returned or parked), and the
  assignments a program makes itself to \<^verbatim>\<open>http.DefaultTransport\<close> and to the field
  \<^verbatim>\<open>Transport\<close> of a client.
\<close>

primrec Activate_calls :: "nat \<Rightarrow> globals \<Rightarrow> globals" where
  "Activate_calls 0 s = s"
| "Activate_calls (Suc n) s = after (Activate False (Activate_calls n s))"

definition assign_DefaultTransport :: "RoundTripper \<Rightarrow> globals \<Rightarrow> globals" where
  "assign_DefaultTransport t s = s\<lparr>DefaultTransport := t\<rparr>"

definition assign_client_Transport :: "nat \<Rightarrow> RoundTripper \<Rightarrow> globals \<Rightarrow> globals" where
  "assign_client_Transport c t s = s\<lparr>client_Transport := (client_Transport s)(c := t)\<rparr>"

text \<open>
  The state after a run of later calls of \<^verbatim>\<open>Deactivate\<close>, none of them disabled and with no
  call of \<^verbatim>\<open>ActivateNonDefault\<close> among them; before each call the program gives the client
  at address \<open>c\<close> the next transport of the list.
\<close>

primrec later_Deactivates :: "nat \<Rightarrow> RoundTripper list \<Rightarrow> globals \<Rightarrow> globals" where
  "later_Deactivates c [] s = s"
| "later_Deactivates c (t # ts) s =
     later_Deactivates c ts (after (Deactivate False (assign_client_Transport c t s)))"

text \<open>
  A session is held and \<open>original\<close> is the saved transport: the gate is at 1, or at 2 with
  a goroutine parked on the channel.
\<close>

definition session_held :: "RoundTripper \<Rightarrow> globals \<Rightarrow> bool" where
  "session_held original s =
     (Transports_Initial s = original \<and>
      (queue_isLocked s = 1 \<or> queue_isLocked s = 2 \<and> queue_wait s > 0))"

text \<open>
  The state at the start of a process whose default transport is \<open>OtherRoundTripper 1\<close>,
  with the mock transport at address 0, and in which the client at address 7 has the
  transport \<open>OtherRoundTripper 2\<close>.
\<close>

definition globals0 :: globals where
  "globals0 =
     \<lparr>DefaultTransport = OtherRoundTripper 1,
      Transports_Default = 0,
      Transports_Initial = OtherRoundTripper 1,
      oldHTTPGlobals_transport = NilRoundTripper,
      oldHTTPGlobals_client = None,
      queue_isLocked = 0,
      queue_wait = 0,
      client_Transport = (\<lambda>c. if c = 7 then OtherRoundTripper 2 else NilRoundTripper)\<rparr>"

section \<open>Properties of the registry and of dispatch\<close>

lemma range_responders_map_of:
  "range_responders es key = (case map_of es key of None \<Rightarrow> None | Some r \<Rightarrow> r)"
  by (induction es key rule: range_responders.induct) auto

lemma range_responders_lookup:
  "fmap_of_list es = registry m \<Longrightarrow> range_responders es key = responderForKey m key"
  by (simp add: range_responders_map_of responderForKey_def fmlookup_of_list [symmetric])

lemma Split_not_Nil: "Split s sep \<noteq> []"
  by (induction s) (auto split: list.splits)

lemma hd_Split: "hd (Split s sep) = takeWhile (\<lambda>c. c \<noteq> sep) s"
  by (induction s) (auto split: list.splits simp: Split_not_Nil)

lemma RoundTrip_found:
  "responderForKey m (Method req @ '' '' @ URL req) = Some g \<Longrightarrow>
   RoundTrip_run m req = ([Lock, Lookup (Method req @ '' '' @ URL req), Unlock, Invoke], g req)"
  by (simp add: RoundTrip_run_def Let_def responderForKey_events_def)

lemma responderForKey_Some:
  "responderForKey m key = Some g \<longleftrightarrow> fmlookup (registry m) key = Some (Some g)"
  by (auto simp: responderForKey_def split: option.splits)

text \<open>
  C1. Dispatch looks the exact key (method, full URL string) up first. When a generator is
  stored under that key, dispatch takes the mutex, reads the registry once, releases the
  mutex, calls that generator and returns its pair of results as it is: no second lookup,
  no read of the catch-all, no default failure.
\<close>

theorem RoundTrip_exact_key:
  assumes "fmlookup (registry m) (Method req @ '' '' @ URL req) = Some (Some g)"
  shows "RoundTrip m req = g req \<and>
         RoundTrip_events m req = [Lock, Lookup (Method req @ '' '' @ URL req), Unlock, Invoke]"
  using assms RoundTrip_found [of m req g]
  by (simp add: RoundTrip_def RoundTrip_events_def responderForKey_Some)

theorem RoundTrip_exact_key_witness:
  "RegisterResponder NewMockTransport ''GET'' ''http://x/a'' (Some hello)
     = Inr (transport_get_a (Some hello)) \<and>
   fmlookup (registry (transport_get_a (Some hello))) (Method get_a @ '' '' @ URL get_a)
     = Some (Some hello) \<and>
   RoundTrip (transport_get_a (Some hello)) get_a
     = (Some \<lparr>StatusCode = 200, Body = ''hello world''\<rparr>, None) \<and>
   RoundTrip_events (transport_get_a (Some hello)) get_a
     = [Lock, Lookup ''GET http://x/a'', Unlock, Invoke]"
proof -
  have reg: "fmlookup (registry (transport_get_a (Some hello))) (Method get_a @ '' '' @ URL get_a)
               = Some (Some hello)"
    by (simp add: registry_def transport_get_a_def get_a_def)
  from RoundTrip_exact_key [OF reg] reg show ?thesis
    by (simp add: RegisterResponder_def NewMockTransport_def transport_get_a_def hello_def
        get_a_def)
qed


subsection \<open>Helper facts about dispatch\<close>

lemma RoundTrip_retry:
  assumes "responderForKey m (Method req @ '' '' @ URL req) = None"
    and "Contains (URL req) (CHR ''?'')"
  shows "RoundTrip_run m req =
     (case responderForKey m (Method req @ '' '' @ takeWhile (\<lambda>c. c \<noteq> CHR ''?'') (URL req)) of
        Some g \<Rightarrow>
          ([Lock, Lookup (Method req @ '' '' @ URL req), Unlock,
            Lock, Lookup (Method req @ '' '' @ takeWhile (\<lambda>c. c \<noteq> CHR ''?'') (URL req)), Unlock,
            Invoke], g req)
      | None \<Rightarrow>
          (case noResponder m of
             None \<Rightarrow>
               ([Lock, Lookup (Method req @ '' '' @ URL req), Unlock,
                 Lock, Lookup (Method req @ '' '' @ takeWhile (\<lambda>c. c \<noteq> CHR ''?'') (URL req)), Unlock,
                 Lock, ReadNoResponder, InvokeConnectionFailure, Unlock], ConnectionFailure req)
           | Some r \<Rightarrow>
               ([Lock, Lookup (Method req @ '' '' @ URL req), Unlock,
                 Lock, Lookup (Method req @ '' '' @ takeWhile (\<lambda>c. c \<noteq> CHR ''?'') (URL req)), Unlock,
                 Lock, ReadNoResponder, Invoke, Unlock], r req)))"
  using assms
  by (simp add: RoundTrip_run_def Let_def responderForKey_events_def hd_Split
      split: option.splits)

lemma RoundTrip_no_retry:
  assumes "responderForKey m (Method req @ '' '' @ URL req) = None"
    and "\<not> Contains (URL req) (CHR ''?'')"
  shows "RoundTrip_run m req =
     (case noResponder m of
        None \<Rightarrow>
          ([Lock, Lookup (Method req @ '' '' @ URL req), Unlock,
            Lock, ReadNoResponder, InvokeConnectionFailure, Unlock], ConnectionFailure req)
      | Some r \<Rightarrow>
          ([Lock, Lookup (Method req @ '' '' @ URL req), Unlock,
            Lock, ReadNoResponder, Invoke, Unlock], r req))"
  using assms
  by (simp add: RoundTrip_run_def Let_def responderForKey_events_def split: option.splits)

lemma RoundTrip_unmatched:
  assumes "responderForKey m (Method req @ '' '' @ URL req) = None"
    and "Contains (URL req) (CHR ''?'') \<longrightarrow>
         responderForKey m (Method req @ '' '' @ takeWhile (\<lambda>c. c \<noteq> CHR ''?'') (URL req)) = None"
  shows "RoundTrip m req = (case noResponder m of None \<Rightarrow> (None, Some NoResponderFound)
                                                 | Some r \<Rightarrow> r req)"
proof (cases "Contains (URL req) (CHR ''?'')")
  case True
  with assms RoundTrip_retry [of m req] show ?thesis
    by (simp add: RoundTrip_def ConnectionFailure_def split: option.splits)
next
  case False
  with assms RoundTrip_no_retry [of m req] show ?thesis
    by (simp add: RoundTrip_def ConnectionFailure_def split: option.splits)
qed


lemma responderForKey_RegisterNoResponder [simp]:
  "responderForKey (RegisterNoResponder m r) k = responderForKey m k"
  by (simp add: responderForKey_def registry_def RegisterNoResponder_def)

lemma noResponder_RegisterNoResponder [simp]:
  "noResponder (RegisterNoResponder m r) = r"
  by (simp add: RegisterNoResponder_def)

lemma registry_transport_get_a [simp]:
  "registry (transport_get_a G) = fmupd ''GET http://x/a'' G fmempty"
  by (simp add: registry_def transport_get_a_def)

lemma noResponder_transport_get_a [simp]: "noResponder (transport_get_a G) = None"
  by (simp add: transport_get_a_def)

text \<open>
  C2. When the exact key gives no generator and the URL contains \<open>?\<close>, dispatch looks up,
  again under the mutex, the key made of the same method and of the URL cut before its first
  \<open>?\<close>, and a generator found there produces the result. With G registered for GET
  \<open>http://x/a\<close> on a new transport, GET \<open>http://x/a?q=1\<close> is answered by G and POST
  \<open>http://x/a?q=1\<close> by the error \<open>NoResponderFound\<close> with no response.
\<close>

theorem RoundTrip_query_fallback:
  "(responderForKey m (Method req @ '' '' @ URL req) = None \<and> Contains (URL req) (CHR ''?'') \<longrightarrow>
      take 6 (RoundTrip_events m req) =
        [Lock, Lookup (Method req @ '' '' @ URL req), Unlock,
         Lock, Lookup (Method req @ '' '' @ takeWhile (\<lambda>c. c \<noteq> CHR ''?'') (URL req)), Unlock] \<and>
      (\<forall>g. responderForKey m (Method req @ '' '' @ takeWhile (\<lambda>c. c \<noteq> CHR ''?'') (URL req)) = Some g
         \<longrightarrow> RoundTrip m req = g req)) \<and>
   RegisterResponder NewMockTransport ''GET'' ''http://x/a'' (Some G)
     = Inr (transport_get_a (Some G)) \<and>
   RoundTrip (transport_get_a (Some G)) get_a_q = G get_a_q \<and>
   RoundTrip (transport_get_a (Some G)) post_a_q = (None, Some NoResponderFound)"
proof -
  have general: "take 6 (RoundTrip_events m req) =
        [Lock, Lookup (Method req @ '' '' @ URL req), Unlock,
         Lock, Lookup (Method req @ '' '' @ takeWhile (\<lambda>c. c \<noteq> CHR ''?'') (URL req)), Unlock] \<and>
      (\<forall>g. responderForKey m (Method req @ '' '' @ takeWhile (\<lambda>c. c \<noteq> CHR ''?'') (URL req)) = Some g
         \<longrightarrow> RoundTrip m req = g req)"
    if "responderForKey m (Method req @ '' '' @ URL req) = None"
      and "Contains (URL req) (CHR ''?'')"
    using RoundTrip_retry [OF that]
    by (simp add: RoundTrip_def RoundTrip_events_def split: option.splits)
  have reg: "RegisterResponder NewMockTransport ''GET'' ''http://x/a'' (Some G)
               = Inr (transport_get_a (Some G))"
    by (simp add: RegisterResponder_def NewMockTransport_def transport_get_a_def)
  have get: "RoundTrip (transport_get_a (Some G)) get_a_q = G get_a_q"
    by (simp add: RoundTrip_def RoundTrip_run_def Let_def responderForKey_def Contains_def
        get_a_q_def)
  have post: "RoundTrip (transport_get_a (Some G)) post_a_q = (None, Some NoResponderFound)"
    by (simp add: RoundTrip_def RoundTrip_run_def Let_def responderForKey_def Contains_def
        post_a_q_def ConnectionFailure_def)
  from general reg get post show ?thesis by blast
qed

theorem RoundTrip_query_fallback_witness:
  "responderForKey (transport_get_a (Some hello)) (Method get_a_q @ '' '' @ URL get_a_q) = None \<and>
   Contains (URL get_a_q) (CHR ''?'') \<and>
   responderForKey (transport_get_a (Some hello))
     (Method get_a_q @ '' '' @ takeWhile (\<lambda>c. c \<noteq> CHR ''?'') (URL get_a_q)) = Some hello \<and>
   take 6 (RoundTrip_events (transport_get_a (Some hello)) get_a_q) =
     [Lock, Lookup ''GET http://x/a?q=1'', Unlock, Lock, Lookup ''GET http://x/a'', Unlock] \<and>
   RoundTrip (transport_get_a (Some hello)) get_a_q
     = (Some \<lparr>StatusCode = 200, Body = ''hello world''\<rparr>, None) \<and>
   RoundTrip (transport_get_a (Some hello)) post_a_q = (None, Some NoResponderFound)"
proof -
  have h1: "responderForKey (transport_get_a (Some hello)) (Method get_a_q @ '' '' @ URL get_a_q)
              = None"
    by (simp add: responderForKey_def get_a_q_def)
  have h2: "Contains (URL get_a_q) (CHR ''?'')"
    by (simp add: Contains_def get_a_q_def)
  have h3: "responderForKey (transport_get_a (Some hello))
     (Method get_a_q @ '' '' @ takeWhile (\<lambda>c. c \<noteq> CHR ''?'') (URL get_a_q)) = Some hello"
    by (simp add: responderForKey_def get_a_q_def)
  from RoundTrip_query_fallback [of "transport_get_a (Some hello)" get_a_q hello] h1 h2 h3
  show ?thesis
    by (simp add: hello_def get_a_q_def)
qed


text \<open>
  C3. When neither the exact key nor (for a URL with \<open>?\<close>) the key of the truncated URL
  gives a generator, dispatch returns the output of the catch-all generator if one is set
  and otherwise no response and the error \<open>NoResponderFound\<close>. So after
  \<open>RegisterNoResponder\<close> with a generator R such a request gets R's output, and after
  \<open>RegisterNoResponder\<close> with nil the catch-all is unset and the request gets the default
  failure again.
\<close>

theorem RoundTrip_no_match:
  assumes "responderForKey m (Method req @ '' '' @ URL req) = None"
    and "Contains (URL req) (CHR ''?'') \<longrightarrow>
         responderForKey m (Method req @ '' '' @ takeWhile (\<lambda>c. c \<noteq> CHR ''?'') (URL req)) = None"
  shows "RoundTrip m req = (case noResponder m of None \<Rightarrow> (None, Some NoResponderFound)
                                                 | Some r \<Rightarrow> r req) \<and>
         RoundTrip (RegisterNoResponder m (Some R)) req = R req \<and>
         \<not> HasNoResponder (RegisterNoResponder (RegisterNoResponder m (Some R)) None) \<and>
         RoundTrip (RegisterNoResponder (RegisterNoResponder m (Some R)) None) req
           = (None, Some NoResponderFound)"
proof -
  have set: "RoundTrip (RegisterNoResponder m (Some R)) req = R req"
    using assms RoundTrip_unmatched [of "RegisterNoResponder m (Some R)" req]
    by simp
  have cleared: "RoundTrip (RegisterNoResponder (RegisterNoResponder m (Some R)) None) req
                   = (None, Some NoResponderFound)"
    using assms
      RoundTrip_unmatched [of "RegisterNoResponder (RegisterNoResponder m (Some R)) None" req]
    by simp
  have slot: "\<not> HasNoResponder (RegisterNoResponder (RegisterNoResponder m (Some R)) None)"
    by (simp add: HasNoResponder_def)
  from RoundTrip_unmatched [OF assms] set cleared slot show ?thesis by simp
qed

theorem RoundTrip_no_match_witness:
  "responderForKey (transport_get_a (Some hello)) (Method post_a_q @ '' '' @ URL post_a_q) = None \<and>
   responderForKey (transport_get_a (Some hello))
     (Method post_a_q @ '' '' @ takeWhile (\<lambda>c. c \<noteq> CHR ''?'') (URL post_a_q)) = None \<and>
   RoundTrip (transport_get_a (Some hello)) post_a_q = (None, Some NoResponderFound) \<and>
   RoundTrip (RegisterNoResponder (transport_get_a (Some hello)) (Some teapot)) post_a_q
     = (None, Some (OtherError ''POST'')) \<and>
   RoundTrip (RegisterNoResponder (RegisterNoResponder (transport_get_a (Some hello))
       (Some teapot)) None) post_a_q = (None, Some NoResponderFound)"
proof -
  have h1: "responderForKey (transport_get_a (Some hello))
              (Method post_a_q @ '' '' @ URL post_a_q) = None"
    by (simp add: responderForKey_def post_a_q_def)
  have h2: "responderForKey (transport_get_a (Some hello))
     (Method post_a_q @ '' '' @ takeWhile (\<lambda>c. c \<noteq> CHR ''?'') (URL post_a_q)) = None"
    by (simp add: responderForKey_def post_a_q_def)
  from h2 have h2': "Contains (URL post_a_q) (CHR ''?'') \<longrightarrow>
     responderForKey (transport_get_a (Some hello))
       (Method post_a_q @ '' '' @ takeWhile (\<lambda>c. c \<noteq> CHR ''?'') (URL post_a_q)) = None"
    by simp
  from RoundTrip_no_match [OF h1 h2', of teapot] h1 h2 show ?thesis
    by (simp add: teapot_def post_a_q_def)
qed

subsection \<open>Registration\<close>

lemma registry_lookup_allocated:
  "fmlookup (registry m) key = Some r \<Longrightarrow> \<exists>mp. responders m = Some mp"
  by (cases "responders m") (simp_all add: registry_def)

lemma RegisterResponder_allocated:
  "responders m = Some mp \<Longrightarrow>
   RegisterResponder m method url r
     = Inr (m\<lparr>responders := Some (fmupd (method @ '' '' @ url) r mp)\<rparr>)"
  by (simp add: RegisterResponder_def)

text \<open>
  C4. When the key of (method, url) is already in the registry, \<open>RegisterResponder\<close> for
  the same method and URL with another generator returns normally, the registry then holds
  the new generator under that key, a request with exactly that method and URL is answered
  by the new generator, and \<open>Len\<close> has the value it had before.
\<close>

theorem RegisterResponder_replaces:
  assumes "fmlookup (registry m) (method @ '' '' @ url) = Some old"
  shows "\<exists>m'. RegisterResponder m method url (Some g) = Inr m' \<and>
              fmlookup (registry m') (method @ '' '' @ url) = Some (Some g) \<and>
              (\<forall>req. Method req = method \<and> URL req = url \<longrightarrow> RoundTrip m' req = g req) \<and>
              Len m' = Len m"
proof -
  from registry_lookup_allocated [OF assms] obtain mp where mp: "responders m = Some mp"
    by blast
  define m' where "m' = m\<lparr>responders := Some (fmupd (method @ '' '' @ url) (Some g) mp)\<rparr>"
  have reg: "RegisterResponder m method url (Some g) = Inr m'"
    by (simp add: RegisterResponder_allocated [OF mp] m'_def)
  have look: "fmlookup (registry m') (method @ '' '' @ url) = Some (Some g)"
    by (simp add: m'_def registry_def)
  have disp: "RoundTrip m' req = g req" if "Method req = method \<and> URL req = url" for req
    using that look RoundTrip_found [of m' req g]
    by (simp add: RoundTrip_def responderForKey_Some)
  from assms mp have "method @ '' '' @ url |\<in>| fmdom mp"
    by (simp add: registry_def fmdomI)
  then have "finsert (method @ '' '' @ url) (fmdom mp) = fmdom mp"
    by (rule finsert_absorb)
  then have len: "Len m' = Len m"
    by (simp add: Len_def registry_def m'_def mp)
  from reg look disp len show ?thesis by blast
qed

theorem RegisterResponder_replaces_witness:
  "fmlookup (registry (transport_get_a (Some hello))) (''GET'' @ '' '' @ ''http://x/a'')
     = Some (Some hello) \<and>
   (\<exists>m'. RegisterResponder (transport_get_a (Some hello)) ''GET'' ''http://x/a'' (Some teapot)
            = Inr m' \<and>
          RoundTrip m' get_a = (None, Some (OtherError ''GET'')) \<and>
          Len m' = 1 \<and> Len (transport_get_a (Some hello)) = 1)"
proof -
  have h: "fmlookup (registry (transport_get_a (Some hello))) (''GET'' @ '' '' @ ''http://x/a'')
             = Some (Some hello)"
    by simp
  have g: "Method get_a = ''GET'' \<and> URL get_a = ''http://x/a''"
    by (simp add: get_a_def)
  have l: "Len (transport_get_a (Some hello)) = 1"
    by (simp add: Len_def fcard_finsert_if)
  from RegisterResponder_replaces [OF h, of teapot] obtain m' where
    m': "RegisterResponder (transport_get_a (Some hello)) ''GET'' ''http://x/a'' (Some teapot)
           = Inr m'"
      "\<forall>req. Method req = ''GET'' \<and> URL req = ''http://x/a'' \<longrightarrow> RoundTrip m' req = teapot req"
      "Len m' = Len (transport_get_a (Some hello))"
    by blast
  from m'(2) g have "RoundTrip m' get_a = (None, Some (OtherError ''GET''))"
    by (simp add: teapot_def)
  with h m'(1,3) l show ?thesis by simp
qed




text \<open>
  C10. The key of the registry is the string method, one space, URL. Two pairs (method, URL)
  with the same such string are one entry: registering under either pair gives the same
  transport, a generator registered under the first pair answers a request that carries the
  second, and a registration under the second pair replaces one made under the first
  (\<open>Len\<close> does not grow). The pairs (\<open>GET\<close>, \<open>a b\<close>) and (\<open>GET a\<close>, \<open>b\<close>) are such.
\<close>

theorem registry_key_concatenation:
  assumes "method1 @ '' '' @ url1 = method2 @ '' '' @ url2"
  shows "RegisterResponder m method1 url1 r = RegisterResponder m method2 url2 r \<and>
         (\<forall>m' g req. RegisterResponder m method1 url1 (Some g) = Inr m' \<and>
                      Method req = method2 \<and> URL req = url2 \<longrightarrow> RoundTrip m' req = g req) \<and>
         (\<forall>m1 r1 r2. RegisterResponder m method1 url1 r1 = Inr m1 \<longrightarrow>
              RegisterResponder m1 method2 url2 r2 = RegisterResponder m method2 url2 r2 \<and>
              (\<forall>m2. RegisterResponder m1 method2 url2 r2 = Inr m2 \<longrightarrow> Len m2 = Len m1))"
proof -
  have same: "RegisterResponder m method1 url1 r = RegisterResponder m method2 url2 r"
    unfolding RegisterResponder_def assms by (rule refl)
  have disp: "RoundTrip m' req = g req"
    if "RegisterResponder m method1 url1 (Some g) = Inr m' \<and>
        Method req = method2 \<and> URL req = url2" for m' g req
  proof -
    from that have "fmlookup (registry m') (method1 @ '' '' @ url1) = Some (Some g)"
      by (auto simp: RegisterResponder_def registry_def split: option.splits)
    with that assms have "responderForKey m' (Method req @ '' '' @ URL req) = Some g"
      by (simp add: responderForKey_Some)
    from RoundTrip_found [OF this] show ?thesis
      by (simp add: RoundTrip_def)
  qed
  have over: "RegisterResponder m1 method2 url2 r2 = RegisterResponder m method2 url2 r2 \<and>
              (\<forall>m2. RegisterResponder m1 method2 url2 r2 = Inr m2 \<longrightarrow> Len m2 = Len m1)"
    if "RegisterResponder m method1 url1 r1 = Inr m1" for m1 r1 r2
    using that assms
    by (auto simp: RegisterResponder_def Len_def registry_def split: option.splits)
  from same disp over show ?thesis by blast
qed

theorem registry_key_concatenation_witness:
  "''GET'' @ '' '' @ ''a b'' = ''GET a'' @ '' '' @ ''b'' \<and>
   RegisterResponder NewMockTransport ''GET'' ''a b'' (Some hello)
     = RegisterResponder NewMockTransport ''GET a'' ''b'' (Some hello) \<and>
   (\<exists>m'. RegisterResponder NewMockTransport ''GET'' ''a b'' (Some hello) = Inr m' \<and>
          RoundTrip m' get_a_b = (Some \<lparr>StatusCode = 200, Body = ''hello world''\<rparr>, None) \<and>
          (\<exists>m2. RegisterResponder m' ''GET a'' ''b'' (Some teapot) = Inr m2 \<and>
                 Len m2 = Len m' \<and> Len m' = 1))"
proof -
  have h: "''GET'' @ '' '' @ ''a b'' = ''GET a'' @ '' '' @ ''b''"
    by simp
  define m' where
    "m' = NewMockTransport\<lparr>responders := Some (fmupd ''GET a b'' (Some hello) fmempty)\<rparr>"
  define m2 where
    "m2 = NewMockTransport\<lparr>responders := Some (fmupd ''GET a b'' (Some teapot) fmempty)\<rparr>"
  have r1: "RegisterResponder NewMockTransport ''GET'' ''a b'' (Some hello) = Inr m'"
    by (simp add: RegisterResponder_def NewMockTransport_def m'_def)
  have r2: "RegisterResponder m' ''GET a'' ''b'' (Some teapot) = Inr m2"
    by (simp add: RegisterResponder_def NewMockTransport_def m'_def m2_def)
  have l: "Len m' = 1"
    by (simp add: Len_def registry_def m'_def NewMockTransport_def fcard_finsert_if)
  have q: "Method get_a_b = ''GET a'' \<and> URL get_a_b = ''b''"
    by (simp add: get_a_b_def)
  note inst = registry_key_concatenation [OF h, of NewMockTransport]
  from inst [of "Some hello"] have same:
    "RegisterResponder NewMockTransport ''GET'' ''a b'' (Some hello)
       = RegisterResponder NewMockTransport ''GET a'' ''b'' (Some hello)"
    by blast
  from inst [of None] r1 q have "RoundTrip m' get_a_b = hello get_a_b"
    by blast
  then have d: "RoundTrip m' get_a_b = (Some \<lparr>StatusCode = 200, Body = ''hello world''\<rparr>, None)"
    by (simp add: hello_def)
  from inst [of None] r1 r2 have "Len m2 = Len m'"
    by blast
  with h same r1 r2 d l show ?thesis by blast
qed

subsection \<open>The mutex during dispatch\<close>

lemma RoundTrip_events_cases:
  "RoundTrip_events m req \<in>
     {[Lock, Lookup k1, Unlock, Invoke] | k1. True} \<union>
     {[Lock, Lookup k1, Unlock, Lock, Lookup k2, Unlock, Invoke] | k1 k2. True} \<union>
     {[Lock, Lookup k1, Unlock] @ tl | k1 tl.
        tl = [Lock, ReadNoResponder, InvokeConnectionFailure, Unlock] \<or>
        tl = [Lock, ReadNoResponder, Invoke, Unlock]} \<union>
     {[Lock, Lookup k1, Unlock, Lock, Lookup k2, Unlock] @ tl | k1 k2 tl.
        tl = [Lock, ReadNoResponder, InvokeConnectionFailure, Unlock] \<or>
        tl = [Lock, ReadNoResponder, Invoke, Unlock]}"
  by (simp add: RoundTrip_events_def RoundTrip_run_def Let_def responderForKey_events_def
      split: option.splits)

lemma RoundTrip_reads_under_lock: "reads_under_lock False (RoundTrip_events m req)"
  using RoundTrip_events_cases [of m req] by auto

lemma RoundTrip_registered_lock_free:
  assumes "responderForKey m (Method req @ '' '' @ URL req) = Some g \<or>
           (responderForKey m (Method req @ '' '' @ URL req) = None \<and>
            Contains (URL req) (CHR ''?'') \<and>
            responderForKey m (Method req @ '' '' @ takeWhile (\<lambda>c. c \<noteq> CHR ''?'') (URL req))
              = Some g)"
  shows "lock_discipline False (RoundTrip_events m req)"
  using assms
proof
  assume "responderForKey m (Method req @ '' '' @ URL req) = Some g"
  from RoundTrip_found [OF this] show ?thesis
    by (simp add: RoundTrip_events_def)
next
  assume a: "responderForKey m (Method req @ '' '' @ URL req) = None \<and>
            Contains (URL req) (CHR ''?'') \<and>
            responderForKey m (Method req @ '' '' @ takeWhile (\<lambda>c. c \<noteq> CHR ''?'') (URL req))
              = Some g"
  then have "responderForKey m (Method req @ '' '' @ URL req) = None"
    and "Contains (URL req) (CHR ''?'')"
    by simp_all
  from RoundTrip_retry [OF this] a show ?thesis
    by (simp add: RoundTrip_events_def)
qed

lemma RoundTrip_catch_all_lock_held:
  assumes "responderForKey m (Method req @ '' '' @ URL req) = None"
    and "Contains (URL req) (CHR ''?'') \<longrightarrow>
         responderForKey m (Method req @ '' '' @ takeWhile (\<lambda>c. c \<noteq> CHR ''?'') (URL req)) = None"
    and "noResponder m = Some r"
  shows "\<not> lock_discipline False (RoundTrip_events m req)"
proof (cases "Contains (URL req) (CHR ''?'')")
  case True
  with assms RoundTrip_retry [of m req] show ?thesis
    by (simp add: RoundTrip_events_def)
next
  case False
  with assms RoundTrip_no_retry [of m req] show ?thesis
    by (simp add: RoundTrip_events_def)
qed

text \<open>
  C5. Every read of the registry and of the catch-all field during dispatch is made with
  the mutex held (lemma \<open>RoundTrip_reads_under_lock\<close>), and a generator taken from the
  registry is called with the mutex released (lemma \<open>RoundTrip_registered_lock_free\<close>).
  The catch-all generator is not: on a new transport with the catch-all \<open>hello\<close>, the
  request GET \<open>http://x/a\<close> makes dispatch take the mutex, read the catch-all field, call the
  generator and only then release the mutex.
\<close>

theorem RoundTrip_catch_all_called_with_lock_held:
  "RoundTrip_events (RegisterNoResponder NewMockTransport (Some hello)) get_a
     = [Lock, Lookup ''GET http://x/a'', Unlock, Lock, ReadNoResponder, Invoke, Unlock] \<and>
   \<not> lock_discipline False
       (RoundTrip_events (RegisterNoResponder NewMockTransport (Some hello)) get_a)"
  by (simp add: RoundTrip_events_def RoundTrip_run_def Let_def responderForKey_def
      responderForKey_events_def registry_def RegisterNoResponder_def NewMockTransport_def
      Contains_def get_a_def)


section \<open>Properties of the activation controller\<close>

lemma Activate_section_Initial:
  "Transports_Initial (Activate_section s) =
     (if DefaultTransport s \<noteq> MockTransportAt (Transports_Default s)
      then DefaultTransport s else Transports_Initial s)"
  by (simp add: Activate_section_def)

lemma Activate_section_DefaultTransport:
  "DefaultTransport (Activate_section s) = MockTransportAt (Transports_Default s)"
  by (simp add: Activate_section_def Let_def)

lemma Activate_idle:
  "queue_isLocked s < 1 \<Longrightarrow>
   Activate False s = Returns (Activate_section (s\<lparr>queue_isLocked := 1\<rparr>))"
  by (simp add: Activate_def queue_acquire_def)

lemma Activate_held:
  "queue_isLocked s \<ge> 1 \<Longrightarrow>
   Activate False s = Blocks (s\<lparr>queue_isLocked := 2, queue_wait := Suc (queue_wait s)\<rparr>)"
  by (simp add: Activate_def queue_acquire_def)

lemma Deactivate_idle:
  "queue_isLocked s < 1 \<Longrightarrow> Deactivate False s = Returns (Deactivate_section s)"
  by (simp add: Deactivate_def queue_release_def)

lemma Deactivate_held:
  "queue_isLocked s = 1 \<Longrightarrow>
   Deactivate False s = Returns (Deactivate_section (s\<lparr>queue_isLocked := 0\<rparr>))"
  by (simp add: Deactivate_def queue_release_def)

lemma Deactivate_handoff:
  "queue_isLocked s = 2 \<Longrightarrow> queue_wait s > 0 \<Longrightarrow>
   Deactivate False s =
     Returns (Deactivate_section (s\<lparr>queue_isLocked := 0, queue_wait := queue_wait s - 1\<rparr>))"
  by (simp add: Deactivate_def queue_release_def)

lemma Deactivate_section_fields:
  "DefaultTransport (Deactivate_section s) = Transports_Initial s"
  "Transports_Initial (Deactivate_section s) = Transports_Initial s"
  "oldHTTPGlobals_client (Deactivate_section s) = oldHTTPGlobals_client s"
  "oldHTTPGlobals_transport (Deactivate_section s) = oldHTTPGlobals_transport s"
  "queue_isLocked (Deactivate_section s) = queue_isLocked s"
  "queue_wait (Deactivate_section s) = queue_wait s"
  "Transports_Default (Deactivate_section s) = Transports_Default s"
  "client_Transport (Deactivate_section s) =
     (case oldHTTPGlobals_client s of
        None \<Rightarrow> client_Transport s
      | Some c \<Rightarrow> (client_Transport s)(c := oldHTTPGlobals_transport s))"
  by (simp_all add: Deactivate_section_def Let_def split: option.splits)

text \<open>
  While a session is held, a further call of \<^verbatim>\<open>Activate\<close> parks and changes the gate only.
\<close>

lemma session_held_Activate:
  "session_held original s \<Longrightarrow> session_held original (after (Activate False s))"
  by (auto simp: session_held_def Activate_held)

lemma session_held_Activate_calls:
  "session_held original s \<Longrightarrow> session_held original (Activate_calls n s)"
  by (induction n) (simp_all add: session_held_Activate)

lemma session_held_Deactivate:
  assumes "session_held original s"
  shows "\<exists>s'. Deactivate False s = Returns s' \<and> DefaultTransport s' = original \<and>
              Transports_Initial s' = original"
  using assms
  by (auto simp: session_held_def Deactivate_held Deactivate_handoff Deactivate_section_fields)

text \<open>
  C6. The locked section of \<^verbatim>\<open>Activate\<close> assigns the ambient default transport to the saved
  original only when the ambient default is not the mock transport. From a state with the
  gate idle and an ambient default that is not the mock transport, \<^verbatim>\<open>Activate\<close> returns
  with the mock transport installed and the former ambient default saved; any number of
  further calls of \<^verbatim>\<open>Activate\<close> with no \<^verbatim>\<open>Deactivate\<close> between them (each parks at the
  gate) leave the saved original as it is; and \<^verbatim>\<open>Deactivate\<close> after them returns with the
  ambient default equal to the transport that was the ambient default at that transition.
\<close>

theorem Activate_saves_original_once:
  assumes "queue_isLocked s < 1"
    and "DefaultTransport s \<noteq> MockTransportAt (Transports_Default s)"
  shows "(\<forall>t. Transports_Initial (Activate_section t) =
               (if DefaultTransport t \<noteq> MockTransportAt (Transports_Default t)
                then DefaultTransport t else Transports_Initial t)) \<and>
         (\<exists>s1. Activate False s = Returns s1 \<and>
                DefaultTransport s1 = MockTransportAt (Transports_Default s) \<and>
                Transports_Initial s1 = DefaultTransport s \<and>
                (\<forall>n. Transports_Initial (Activate_calls n s1) = DefaultTransport s \<and>
                      (\<exists>s2. Deactivate False (Activate_calls n s1) = Returns s2 \<and>
                             DefaultTransport s2 = DefaultTransport s)))"
proof -
  define s1 where "s1 = Activate_section (s\<lparr>queue_isLocked := 1\<rparr>)"
  have ret: "Activate False s = Returns s1"
    by (simp add: s1_def Activate_idle [OF assms(1)])
  have dt: "DefaultTransport s1 = MockTransportAt (Transports_Default s)"
    by (simp add: s1_def Activate_section_DefaultTransport)
  have ini: "Transports_Initial s1 = DefaultTransport s"
    using assms(2) by (simp add: s1_def Activate_section_Initial)
  have "queue_isLocked s1 = 1"
    by (simp add: s1_def Activate_section_def Let_def)
  with ini have held: "session_held (DefaultTransport s) s1"
    by (simp add: session_held_def)
  have later: "Transports_Initial (Activate_calls n s1) = DefaultTransport s \<and>
               (\<exists>s2. Deactivate False (Activate_calls n s1) = Returns s2 \<and>
                      DefaultTransport s2 = DefaultTransport s)" for n
  proof -
    from held have h: "session_held (DefaultTransport s) (Activate_calls n s1)"
      by (rule session_held_Activate_calls)
    from session_held_Deactivate [OF h] h show ?thesis
      by (auto simp: session_held_def)
  qed
  from ret dt ini later show ?thesis
    by (simp add: Activate_section_Initial)
qed

theorem Activate_saves_original_once_witness:
  "queue_isLocked globals0 < 1 \<and>
   DefaultTransport globals0 \<noteq> MockTransportAt (Transports_Default globals0) \<and>
   DefaultTransport (after (Activate False globals0)) = MockTransportAt 0 \<and>
   Transports_Initial (Activate_calls (Suc (Suc 0)) (after (Activate False globals0)))
     = OtherRoundTripper 1 \<and>
   DefaultTransport
     (after (Deactivate False (Activate_calls (Suc (Suc 0)) (after (Activate False globals0)))))
     = OtherRoundTripper 1"
proof -
  have h1: "queue_isLocked globals0 < 1"
    by (simp add: globals0_def)
  have h2: "DefaultTransport globals0 \<noteq> MockTransportAt (Transports_Default globals0)"
    by (simp add: globals0_def)
  have d: "DefaultTransport globals0 = OtherRoundTripper 1"
    "Transports_Default globals0 = 0"
    by (simp_all add: globals0_def)
  from Activate_saves_original_once [OF h1 h2] obtain s1 where
    s1: "Activate False globals0 = Returns s1"
      "DefaultTransport s1 = MockTransportAt (Transports_Default globals0)"
      "\<forall>n. Transports_Initial (Activate_calls n s1) = DefaultTransport globals0 \<and>
           (\<exists>s2. Deactivate False (Activate_calls n s1) = Returns s2 \<and>
                  DefaultTransport s2 = DefaultTransport globals0)"
    by blast
  from s1(3) obtain s2 where
    s2: "Transports_Initial (Activate_calls (Suc (Suc 0)) s1) = DefaultTransport globals0"
      "Deactivate False (Activate_calls (Suc (Suc 0)) s1) = Returns s2"
      "DefaultTransport s2 = DefaultTransport globals0"
    by blast
  from h1 h2 s1(1,2) s2 d show ?thesis
    by simp
qed


subsection \<open>Deactivate and the redirected client\<close>

lemma ActivateNonDefault_returns:
  assumes "ActivateNonDefault False (Some c) s = Returns s1"
  shows "queue_isLocked s < 1"
    and "s1 = s\<lparr>queue_isLocked := 1,
                 oldHTTPGlobals_transport := client_Transport s c,
                 oldHTTPGlobals_client := Some c,
                 client_Transport :=
                   (client_Transport s)(c := MockTransportAt (Transports_Default s))\<rparr>"
  using assms
  by (simp_all add: ActivateNonDefault_def ActivateNonDefault_section_def queue_acquire_def
      split: if_splits)

lemma Deactivate_recorded_client:
  assumes "oldHTTPGlobals_client s = Some c"
    and "queue_isLocked s \<le> 1"
  shows "\<exists>s'. Deactivate False s = Returns s' \<and>
              client_Transport s' c = oldHTTPGlobals_transport s \<and>
              oldHTTPGlobals_client s' = Some c \<and>
              oldHTTPGlobals_transport s' = oldHTTPGlobals_transport s \<and>
              queue_isLocked s' \<le> 1"
proof (cases "queue_isLocked s < 1")
  case True
  with assms(1) show ?thesis
    by (simp add: Deactivate_idle Deactivate_section_fields)
next
  case False
  with assms(2) have "queue_isLocked s = 1"
    by simp
  with assms(1) show ?thesis
    by (simp add: Deactivate_held Deactivate_section_fields)
qed

text \<open>
  The record holds one client: \<^verbatim>\<open>ActivateNonDefault\<close> for a client replaces whatever was
  recorded before.
\<close>

lemma ActivateNonDefault_replaces_record:
  assumes "ActivateNonDefault False (Some c) s = Returns s1"
  shows "oldHTTPGlobals_client s1 = Some c \<and> oldHTTPGlobals_transport s1 = client_Transport s c"
  using ActivateNonDefault_returns(2) [OF assms] by simp

lemma Deactivate_assigned_client:
  assumes "oldHTTPGlobals_client s = Some c"
    and "oldHTTPGlobals_transport s = saved"
    and "queue_isLocked s \<le> 1"
  shows "\<exists>s'. Deactivate False (assign_client_Transport c t s) = Returns s' \<and>
              client_Transport s' c = saved \<and>
              oldHTTPGlobals_client s' = Some c \<and>
              oldHTTPGlobals_transport s' = saved \<and>
              queue_isLocked s' \<le> 1"
proof -
  from assms have "oldHTTPGlobals_client (assign_client_Transport c t s) = Some c"
    and "queue_isLocked (assign_client_Transport c t s) \<le> 1"
    and "oldHTTPGlobals_transport (assign_client_Transport c t s) = saved"
    by (simp_all add: assign_client_Transport_def)
  with Deactivate_recorded_client [of "assign_client_Transport c t s" c] show ?thesis
    by auto
qed

lemma later_Deactivates_record:
  assumes "oldHTTPGlobals_client s = Some c"
    and "oldHTTPGlobals_transport s = saved"
    and "queue_isLocked s \<le> 1"
  shows "oldHTTPGlobals_client (later_Deactivates c ts s) = Some c \<and>
         oldHTTPGlobals_transport (later_Deactivates c ts s) = saved \<and>
         queue_isLocked (later_Deactivates c ts s) \<le> 1"
  using assms
proof (induction ts arbitrary: s)
  case Nil
  then show ?case by simp
next
  case (Cons t ts)
  from Deactivate_assigned_client [OF Cons.prems, of t] obtain s' where
    s': "Deactivate False (assign_client_Transport c t s) = Returns s'"
      "oldHTTPGlobals_client s' = Some c" "oldHTTPGlobals_transport s' = saved"
      "queue_isLocked s' \<le> 1"
    by blast
  from Cons.IH [OF s'(2,3,4)] s'(1) show ?case
    by simp
qed

text \<open>
  C7, as the code has it. When \<^verbatim>\<open>ActivateNonDefault\<close> has returned for a client,
  \<^verbatim>\<open>Deactivate\<close> returns with that client's transport equal to the transport the client had
  before, and the record of the client and of its transport is kept as it was, not cleared.
  So every later \<^verbatim>\<open>Deactivate\<close> that comes before another \<^verbatim>\<open>ActivateNonDefault\<close> replaces
  the record returns as well, assigns the saved transport to that client again, whatever
  transport the client has been given in between, and keeps the record once more.
\<close>

theorem Deactivate_restores_client_keeps_record:
  assumes "ActivateNonDefault False (Some c) s = Returns s1"
  shows "\<exists>s2. Deactivate False s1 = Returns s2 \<and>
              client_Transport s2 c = client_Transport s c \<and>
              oldHTTPGlobals_client s2 = Some c \<and>
              oldHTTPGlobals_transport s2 = client_Transport s c \<and>
              (\<forall>ts t. \<exists>s3.
                 Deactivate False (assign_client_Transport c t (later_Deactivates c ts s2))
                   = Returns s3 \<and>
                 client_Transport s3 c = client_Transport s c \<and>
                 oldHTTPGlobals_client s3 = Some c \<and>
                 oldHTTPGlobals_transport s3 = client_Transport s c)"
proof -
  from ActivateNonDefault_returns(2) [OF assms]
  have rec: "oldHTTPGlobals_client s1 = Some c"
    and old: "oldHTTPGlobals_transport s1 = client_Transport s c"
    and gate: "queue_isLocked s1 \<le> 1"
    by simp_all
  from Deactivate_recorded_client [OF rec gate] old obtain s2 where
    s2: "Deactivate False s1 = Returns s2" "client_Transport s2 c = client_Transport s c"
      "oldHTTPGlobals_client s2 = Some c" "oldHTTPGlobals_transport s2 = client_Transport s c"
      "queue_isLocked s2 \<le> 1"
    by auto
  have again: "\<exists>s3. Deactivate False (assign_client_Transport c t (later_Deactivates c ts s2))
                      = Returns s3 \<and>
                    client_Transport s3 c = client_Transport s c \<and>
                    oldHTTPGlobals_client s3 = Some c \<and>
                    oldHTTPGlobals_transport s3 = client_Transport s c" for ts t
  proof -
    from later_Deactivates_record [OF s2(3,4,5), of ts]
    have "oldHTTPGlobals_client (later_Deactivates c ts s2) = Some c"
      and "oldHTTPGlobals_transport (later_Deactivates c ts s2) = client_Transport s c"
      and "queue_isLocked (later_Deactivates c ts s2) \<le> 1"
      by simp_all
    from Deactivate_assigned_client [OF this, of t] show ?thesis
      by blast
  qed
  from s2 again show ?thesis by blast
qed

theorem Deactivate_restores_client_keeps_record_witness:
  "ActivateNonDefault False (Some 7) globals0
     = Returns (globals0\<lparr>queue_isLocked := 1,
                         oldHTTPGlobals_transport := OtherRoundTripper 2,
                         oldHTTPGlobals_client := Some 7,
                         client_Transport := (client_Transport globals0)(7 := MockTransportAt 0)\<rparr>) \<and>
   client_Transport (after (Deactivate False (after (ActivateNonDefault False (Some 7) globals0)))) 7
     = OtherRoundTripper 2 \<and>
   oldHTTPGlobals_client (after (Deactivate False (after (ActivateNonDefault False (Some 7) globals0))))
     = Some 7 \<and>
   client_Transport
     (after (Deactivate False
        (assign_client_Transport 7 (OtherRoundTripper 5)
           (later_Deactivates 7 [OtherRoundTripper 9]
              (after (Deactivate False (after (ActivateNonDefault False (Some 7) globals0)))))))) 7
     = OtherRoundTripper 2 \<and>
   oldHTTPGlobals_client
     (after (Deactivate False
        (assign_client_Transport 7 (OtherRoundTripper 5)
           (later_Deactivates 7 [OtherRoundTripper 9]
              (after (Deactivate False (after (ActivateNonDefault False (Some 7) globals0))))))))
     = Some 7"
proof -
  have a: "ActivateNonDefault False (Some 7) globals0
     = Returns (globals0\<lparr>queue_isLocked := 1,
                         oldHTTPGlobals_transport := OtherRoundTripper 2,
                         oldHTTPGlobals_client := Some 7,
                         client_Transport := (client_Transport globals0)(7 := MockTransportAt 0)\<rparr>)"
    by (simp add: ActivateNonDefault_def ActivateNonDefault_section_def queue_acquire_def
        globals0_def)
  have c: "client_Transport globals0 7 = OtherRoundTripper 2"
    by (simp add: globals0_def)
  from Deactivate_restores_client_keeps_record [OF a] obtain s2 where
    s2: "Deactivate False
           (globals0\<lparr>queue_isLocked := 1,
                      oldHTTPGlobals_transport := OtherRoundTripper 2,
                      oldHTTPGlobals_client := Some 7,
                      client_Transport := (client_Transport globals0)(7 := MockTransportAt 0)\<rparr>)
           = Returns s2"
      "client_Transport s2 7 = client_Transport globals0 7"
      "oldHTTPGlobals_client s2 = Some 7"
      "\<forall>ts t. \<exists>s3.
         Deactivate False (assign_client_Transport 7 t (later_Deactivates 7 ts s2)) = Returns s3 \<and>
         client_Transport s3 7 = client_Transport globals0 7 \<and>
         oldHTTPGlobals_client s3 = Some 7 \<and>
         oldHTTPGlobals_transport s3 = client_Transport globals0 7"
    by blast
  from s2(4) obtain s3 where
    s3: "Deactivate False
           (assign_client_Transport 7 (OtherRoundTripper 5)
              (later_Deactivates 7 [OtherRoundTripper 9] s2)) = Returns s3"
      "client_Transport s3 7 = client_Transport globals0 7"
      "oldHTTPGlobals_client s3 = Some 7"
    by blast
  have "after (Deactivate False (after (ActivateNonDefault False (Some 7) globals0))) = s2"
    by (simp only: a s2(1) after.simps)
  with a c s2(2,3) s3 show ?thesis
    by (simp only: after.simps)
qed

text \<open>
  The claim C7 says that \<^verbatim>\<open>Deactivate\<close> clears the record of the redirected client, so that
  a later \<^verbatim>\<open>Deactivate\<close> leaves the client alone. After \<^verbatim>\<open>ActivateNonDefault\<close> for the client
  at address 7 and \<^verbatim>\<open>Deactivate\<close>, the record still names that client; and when the program
  then gives the client the transport \<open>OtherRoundTripper 9\<close>, a second \<^verbatim>\<open>Deactivate\<close> puts
  \<open>OtherRoundTripper 2\<close> back.
\<close>

theorem Deactivate_clears_record_counterexample:
  "oldHTTPGlobals_client
     (after (Deactivate False (after (ActivateNonDefault False (Some 7) globals0)))) \<noteq> None \<and>
   client_Transport
     (assign_client_Transport 7 (OtherRoundTripper 9)
        (after (Deactivate False (after (ActivateNonDefault False (Some 7) globals0))))) 7
     = OtherRoundTripper 9 \<and>
   client_Transport
     (after (Deactivate False
        (assign_client_Transport 7 (OtherRoundTripper 9)
           (after (Deactivate False (after (ActivateNonDefault False (Some 7) globals0))))))) 7
     = OtherRoundTripper 2"
  by (simp add: ActivateNonDefault_def ActivateNonDefault_section_def queue_acquire_def
      Deactivate_def queue_release_def Deactivate_section_def assign_client_Transport_def
      globals0_def Let_def)

subsection \<open>Deactivate with the gate idle\<close>

text \<open>
  C8, as the code has it. With the gate idle \<^verbatim>\<open>Deactivate\<close> returns; it leaves the saved
  original transport as it is, makes the ambient default transport equal to it, and gives
  the recorded client, if there is one, its saved transport. The state is unchanged exactly
  when the ambient default already was the saved original and the recorded client already
  had its saved transport. That is so after any such \<^verbatim>\<open>Deactivate\<close>: a second one in a row
  changes nothing.
\<close>

theorem Deactivate_idle_restores:
  assumes "queue_isLocked s < 1"
  shows "\<exists>s'. Deactivate False s = Returns s' \<and>
              Transports_Initial s' = Transports_Initial s \<and>
              DefaultTransport s' = Transports_Initial s \<and>
              client_Transport s' =
                (case oldHTTPGlobals_client s of
                   None \<Rightarrow> client_Transport s
                 | Some c \<Rightarrow> (client_Transport s)(c := oldHTTPGlobals_transport s)) \<and>
              (s' = s \<longleftrightarrow>
                 DefaultTransport s = Transports_Initial s \<and>
                 (case oldHTTPGlobals_client s of
                    None \<Rightarrow> True
                  | Some c \<Rightarrow> client_Transport s c = oldHTTPGlobals_transport s)) \<and>
              Deactivate False s' = Returns s'"
proof -
  define s' where "s' = Deactivate_section s"
  have ret: "Deactivate False s = Returns s'"
    by (simp add: s'_def Deactivate_idle [OF assms])
  have fields: "Transports_Initial s' = Transports_Initial s"
    "DefaultTransport s' = Transports_Initial s"
    "client_Transport s' =
       (case oldHTTPGlobals_client s of
          None \<Rightarrow> client_Transport s
        | Some c \<Rightarrow> (client_Transport s)(c := oldHTTPGlobals_transport s))"
    by (simp_all add: s'_def Deactivate_section_fields)
  have same: "s' = s \<longleftrightarrow>
                 DefaultTransport s = Transports_Initial s \<and>
                 (case oldHTTPGlobals_client s of
                    None \<Rightarrow> True
                  | Some c \<Rightarrow> client_Transport s c = oldHTTPGlobals_transport s)"
  proof (cases "oldHTTPGlobals_client s")
    case None
    then have "s' = s\<lparr>DefaultTransport := Transports_Initial s\<rparr>"
      by (simp add: s'_def Deactivate_section_def Let_def)
    then have "s' = s \<longleftrightarrow> DefaultTransport s = Transports_Initial s"
      by (cases s) auto
    with None show ?thesis by simp
  next
    case (Some c)
    then have "s' = s\<lparr>DefaultTransport := Transports_Initial s,
                       client_Transport := (client_Transport s)(c := oldHTTPGlobals_transport s)\<rparr>"
      by (simp add: s'_def Deactivate_section_def Let_def)
    then have "s' = s \<longleftrightarrow> DefaultTransport s = Transports_Initial s \<and>
                 (client_Transport s)(c := oldHTTPGlobals_transport s) = client_Transport s"
      by (cases s) auto
    moreover have "(client_Transport s)(c := oldHTTPGlobals_transport s) = client_Transport s
                     \<longleftrightarrow> client_Transport s c = oldHTTPGlobals_transport s"
      by (auto simp: fun_upd_idem_iff)
    ultimately show ?thesis using Some by simp
  qed
  have "queue_isLocked s' < 1"
    using assms by (simp add: s'_def Deactivate_section_fields)
  then have "Deactivate False s' = Returns (Deactivate_section s')"
    by (rule Deactivate_idle)
  moreover have "Deactivate_section s' = s'"
    by (cases "oldHTTPGlobals_client s")
      (simp_all add: s'_def Deactivate_section_def Let_def)
  ultimately have idem: "Deactivate False s' = Returns s'"
    by simp
  from ret fields same idem show ?thesis by blast
qed

theorem Deactivate_idle_restores_witness:
  "queue_isLocked (assign_DefaultTransport (OtherRoundTripper 5) globals0) < 1 \<and>
   Deactivate False (assign_DefaultTransport (OtherRoundTripper 5) globals0) = Returns globals0 \<and>
   Deactivate False globals0 = Returns globals0"
proof -
  have h: "queue_isLocked (assign_DefaultTransport (OtherRoundTripper 5) globals0) < 1"
    by (simp add: assign_DefaultTransport_def globals0_def)
  have r: "Deactivate False (assign_DefaultTransport (OtherRoundTripper 5) globals0)
             = Returns globals0"
    by (simp add: Deactivate_def queue_release_def Deactivate_section_def
        assign_DefaultTransport_def globals0_def Let_def)
  from Deactivate_idle_restores [OF h] r h show ?thesis
    by auto
qed

text \<open>
  The claim C8 says that \<^verbatim>\<open>Deactivate\<close> with the controller inactive changes nothing. With
  the gate idle and the ambient default transport set by the program to
  \<open>OtherRoundTripper 5\<close>, \<^verbatim>\<open>Deactivate\<close> replaces it by the saved \<open>OtherRoundTripper 1\<close>.
\<close>

theorem Deactivate_inactive_noop_counterexample:
  "queue_isLocked (assign_DefaultTransport (OtherRoundTripper 5) globals0) = 0 \<and>
   DefaultTransport (assign_DefaultTransport (OtherRoundTripper 5) globals0)
     = OtherRoundTripper 5 \<and>
   DefaultTransport
     (after (Deactivate False (assign_DefaultTransport (OtherRoundTripper 5) globals0)))
     = OtherRoundTripper 1"
  by (simp add: Deactivate_def queue_release_def Deactivate_section_def
      assign_DefaultTransport_def globals0_def Let_def)

end
